theory Spec2Isabelle
  imports Main "HOL-Library.Word" "HOL-Library.Signed_Division" "HOL-Library.AList"
    "HOL-Library.Multiset"
begin

section \<open>The statistics engine of stats/stats\_unit.go\<close>

text \<open>
  The embedding follows \<^verbatim>\<open>src/stats/stats_unit.go\<close>. Go's \<^verbatim>\<open>int\<close> and \<^verbatim>\<open>uint\<close> are
  64-bit words: \<open>+\<close>, \<open>-\<close> and \<open>*\<close> wrap around, the conversions \<^verbatim>\<open>uint(x)\<close> and
  \<^verbatim>\<open>int(x)\<close> keep the bits and are therefore the identity on \<open>64 word\<close>; a signed
  reading is \<open>sint\<close>, an unsigned one \<open>unat\<close>.
\<close>

type_synonym go_int = "64 word"
type_synonym go_uint = "64 word"

subsection \<open>Run-time failures\<close>

text \<open>
  A Go run-time panic or a call of \<^verbatim>\<open>log.Fatalf\<close> ends the operation without a result.
  Every such exit of the source is a value of \<open>fault\<close>, returned as \<open>Inl\<close>.
\<close>

datatype fault =
    IndexOutOfRange     \<comment> \<open>\<^verbatim>\<open>a[i]\<close> with \<^verbatim>\<open>i\<close> outside \<^verbatim>\<open>0 .. len(a)-1\<close>\<close>
  | SliceBoundsOutOfRange \<comment> \<open>\<^verbatim>\<open>a[1:]\<close> on an empty slice\<close>
  | DivideByZero        \<comment> \<open>integer division by zero\<close>
  | NilDereference      \<comment> \<open>a field of a nil \<^verbatim>\<open>*unit\<close>\<close>
  | Fatal               \<comment> \<open>\<^verbatim>\<open>log.Fatalf\<close>: the process exits\<close>

definition andThen :: "fault + 'a \<Rightarrow> ('a \<Rightarrow> fault + 'b) \<Rightarrow> fault + 'b" where
  "andThen m f = (case m of Inl e \<Rightarrow> Inl e | Inr x \<Rightarrow> f x)"

text \<open>\<^verbatim>\<open>a[i]\<close> for a signed index: Go panics outside the slice.\<close>

definition at :: "'a list \<Rightarrow> go_int \<Rightarrow> fault + 'a" where
  "at a i = (if 0 \<le> sint i \<and> sint i < int (length a)
             then Inr (a ! nat (sint i)) else Inl IndexOutOfRange)"

subsection \<open>Constants and types declared outside the file\<close>

text \<open>
  Modelled from the spec: the result classification \<^verbatim>\<open>Result\<close>, its constants and the
  time unit selector are declared in a file of the package that is not part of the
  sources at hand. The code indexes \<^verbatim>\<open>nResult\<close> with a \<^verbatim>\<open>Result\<close> and compares it
  with \<^verbatim>\<open>0\<close>, so it is an integer type; the spec lists the kinds in the order
  unset, not-filtered, filtered, safe-browsing, safe-search, parental.
\<close>

definition RNotFiltered :: go_int where "RNotFiltered = 1"
definition RFiltered :: go_int where "RFiltered = 2"
definition RSafeBrowsing :: go_int where "RSafeBrowsing = 3"
definition RSafeSearch :: go_int where "RSafeSearch = 4"
definition RParental :: go_int where "RParental = 5"
definition rLast :: go_int where "rLast = 6"

datatype TimeUnit = Hours | Days

definition maxDomains :: nat where "maxDomains = 100"
definition maxClients :: nat where "maxClients = 100"

subsection \<open>Data for one time unit\<close>

text \<open>
  A Go \<^verbatim>\<open>map[string]int\<close> is an association list with one entry per key. The order of
  the list is the order in which \<^verbatim>\<open>range\<close> visits the map; Go leaves that order
  unspecified, so no statement below depends on a particular one unless it says so.
\<close>

type_synonym gomap = "(string \<times> go_int) list"

definition mapGet :: "gomap \<Rightarrow> string \<Rightarrow> go_int" where
  \<comment> \<open>\<^verbatim>\<open>m[k]\<close> as a value: the zero value for a missing key\<close>
  "mapGet m k = (case map_of m k of None \<Rightarrow> 0 | Some v \<Rightarrow> v)"

definition mapSet :: "gomap \<Rightarrow> string \<Rightarrow> go_int \<Rightarrow> gomap" where
  \<comment> \<open>\<^verbatim>\<open>m[k] = v\<close>\<close>
  "mapSet m k v = AList.update k v m"

definition mapInc :: "gomap \<Rightarrow> string \<Rightarrow> gomap" where
  \<comment> \<open>\<^verbatim>\<open>m[k]++\<close>\<close>
  "mapInc m k = mapSet m k (mapGet m k + 1)"

record unit_t =
  unit_id :: go_int
  nTotal :: go_int
  nResult :: "go_int list"
  timeSum :: go_int
  domains :: gomap
  blockedDomains :: gomap
  clients :: gomap

record countPair =
  Name :: string
  Count :: go_uint

record unitDB =
  NTotal :: go_uint
  NResult :: "go_uint list"
  Domains :: "countPair list"
  BlockedDomains :: "countPair list"
  Clients :: "countPair list"
  TimeAvg :: go_uint

text \<open>The zero value \<^verbatim>\<open>unitDB{}\<close>.\<close>

definition unitDB0 :: unitDB where
  "unitDB0 = \<lparr>NTotal = 0, NResult = [], Domains = [], BlockedDomains = [], Clients = [],
     TimeAvg = 0\<rparr>"

text \<open>
  \<^verbatim>\<open>initUnit\<close> stores into an existing unit; every caller passes the zero value
  \<^verbatim>\<open>unit{}\<close>, whose \<^verbatim>\<open>nTotal\<close> and \<^verbatim>\<open>timeSum\<close> are 0.
\<close>

definition unit0 :: unit_t where
  "unit0 = \<lparr>unit_id = 0, nTotal = 0, nResult = [], timeSum = 0, domains = [], blockedDomains = [],
     clients = []\<rparr>"

definition initUnit :: "unit_t \<Rightarrow> go_int \<Rightarrow> unit_t" where
  "initUnit u i = u\<lparr>unit_id := i, nResult := replicate (nat (sint rLast)) 0, domains := [],
     blockedDomains := [], clients := []\<rparr>"

subsection \<open>Sorting\<close>

text \<open>
  \<^verbatim>\<open>sort.Slice\<close> belongs to Go's library. It is modelled by the insertion sort with
  which the library sorts short slices: each element moves towards the front while
  \<^verbatim>\<open>less(j, j-1)\<close> holds. \<open>shift\<close> works on the sorted prefix in reverse order. The
  library does not say in which order elements with equal counts end up; the examples
  below have distinct counts.
\<close>

fun shift :: "('a \<Rightarrow> 'a \<Rightarrow> bool) \<Rightarrow> 'a \<Rightarrow> 'a list \<Rightarrow> 'a list" where
  "shift lt x [] = [x]"
| "shift lt x (p # rp) = (if lt x p then p # shift lt x rp else x # p # rp)"

definition sortSlice :: "('a \<Rightarrow> 'a \<Rightarrow> bool) \<Rightarrow> 'a list \<Rightarrow> 'a list" where
  "sortSlice lt a = rev (foldl (\<lambda>rp x. shift lt x rp) [] a)"

subsection \<open>The bucket codec\<close>

definition lessCount :: "countPair \<Rightarrow> countPair \<Rightarrow> bool" where
  \<comment> \<open>the closure \<^verbatim>\<open>less\<close> of \<^verbatim>\<open>convertMapToArray\<close>: an unsigned comparison\<close>
  "lessCount x y = (if Count x \<ge> Count y then True else False)"

definition convertMapToArray :: "gomap \<Rightarrow> nat \<Rightarrow> countPair list" where
  "convertMapToArray m mx =
     (let a = map (\<lambda>(k, v). \<lparr>Name = k, Count = v\<rparr>) m;
          a = sortSlice lessCount a;
          mx = (if mx > length a then length a else mx)
      in take mx a)"

definition convertArrayToMap :: "countPair list \<Rightarrow> gomap" where
  "convertArrayToMap a = foldl (\<lambda>m it. mapSet m (Name it) (Count it)) [] a"

text \<open>
  \<^verbatim>\<open>u.timeSum / u.nTotal\<close> divides signed integers, truncates towards zero (\<open>sdiv\<close>
  on \<open>int\<close>) and wraps around; the guard of \<^verbatim>\<open>serialize\<close> excludes a zero divisor.
\<close>

definition goDiv :: "go_int \<Rightarrow> go_int \<Rightarrow> go_int" where
  "goDiv a b = word_of_int (sint a sdiv sint b)"

definition serialize :: "unit_t \<Rightarrow> unitDB" where
  "serialize u =
     \<lparr>NTotal = nTotal u,
      NResult = foldl (\<lambda>r it. r @ [it]) [] (nResult u),
      Domains = convertMapToArray (domains u) maxDomains,
      BlockedDomains = convertMapToArray (blockedDomains u) maxDomains,
      Clients = convertMapToArray (clients u) maxClients,
      TimeAvg = (if nTotal u \<noteq> 0 then goDiv (timeSum u) (nTotal u) else 0)\<rparr>"

definition deserialize :: "unit_t \<Rightarrow> unitDB \<Rightarrow> unit_t" where
  "deserialize u udb =
     (let u = u\<lparr>nTotal := NTotal udb\<rparr>;
          u = u\<lparr>nResult := foldl (\<lambda>r it. r @ [it]) (nResult u) (NResult udb)\<rparr>;
          u = u\<lparr>domains := convertArrayToMap (Domains udb)\<rparr>;
          u = u\<lparr>blockedDomains := convertArrayToMap (BlockedDomains udb)\<rparr>;
          u = u\<lparr>clients := convertArrayToMap (Clients udb)\<rparr>
      in u\<lparr>timeSum := TimeAvg udb * nTotal u\<rparr>)"

subsection \<open>The persistence layer\<close>

text \<open>
  The bbolt store is a library: it is modelled by what the code relies on. A store is
  the list of its buckets in key order. The key of a unit is \<^verbatim>\<open>itob(id)\<close>, the eight
  bytes of the identifier, most significant first, so the key order is the unsigned order
  of the identifiers and \<^verbatim>\<open>btoi\<close> gives the identifier back; the model keeps the
  identifier itself as the key. A bucket holds the record put under the sub-key
  \<^verbatim>\<open>{0}\<close>, or nothing. The gob encoding is taken to give back the record it was given.
  A write transaction works on a copy of the store: \<^verbatim>\<open>Commit\<close> makes the copy the
  store, \<^verbatim>\<open>Rollback\<close> drops it.
\<close>

type_synonym bucket = "unitDB option"
type_synonym store = "(go_int \<times> bucket) list"

fun insertBucket :: "store \<Rightarrow> go_int \<Rightarrow> store" where
  \<comment> \<open>a new, empty bucket at its place in the key order\<close>
  "insertBucket [] k = [(k, None)]"
| "insertBucket ((k', b) # tx) k =
     (if k < k' then (k, None) # (k', b) # tx else (k', b) # insertBucket tx k)"

definition createBucketIfNotExists :: "store \<Rightarrow> go_int \<Rightarrow> store" where
  "createBucketIfNotExists tx k = (if k \<in> fst ` set tx then tx else insertBucket tx k)"

text \<open>What the program reads from outside: the clock and the failures of the store.\<close>

datatype flushFault = NoFault | CreateBucketFails | EncodeFails | PutFails

record env =
  now :: go_int             \<comment> \<open>the value of the callback \<^verbatim>\<open>s.unitID()\<close>\<close>
  openFails :: bool         \<comment> \<open>\<^verbatim>\<open>bolt.Open\<close> returns an error\<close>
  beginFails :: bool        \<comment> \<open>\<^verbatim>\<open>db.Begin\<close> returns an error\<close>
  flushFault :: flushFault  \<comment> \<open>the step of \<^verbatim>\<open>flushUnitToDB\<close> that returns an error\<close>

datatype dbHandle = DbNil | DbOpen | DbClosed

record statsCtx =
  limit :: go_int
  filename :: string
  db :: dbHandle
  unit :: "unit_t option"

definition dbOpen :: "env \<Rightarrow> statsCtx \<Rightarrow> statsCtx \<times> bool" where
  "dbOpen e s = (if openFails e then (s\<lparr>db := DbNil\<rparr>, False) else (s\<lparr>db := DbOpen\<rparr>, True))"

definition swapUnit :: "statsCtx \<Rightarrow> unit_t option \<Rightarrow> unit_t option \<times> statsCtx" where
  "swapUnit s new = (unit s, s\<lparr>unit := new\<rparr>)"

text \<open>\<^verbatim>\<open>beginTxn\<close>: the transaction's view of the store, or nil.\<close>

definition beginTxn :: "env \<Rightarrow> store \<Rightarrow> statsCtx \<Rightarrow> store option" where
  "beginTxn e disk s =
     (if db s = DbNil then None
      else if db s = DbClosed \<or> beginFails e then None
      else Some disk)"

definition deleteUnit :: "store \<Rightarrow> go_int \<Rightarrow> store \<times> bool" where
  \<comment> \<open>\<^verbatim>\<open>DeleteBucket\<close> reports a bucket that does not exist as an error\<close>
  "deleteUnit tx i =
     (if i \<in> fst ` set tx then (AList.delete i tx, True) else (tx, False))"

definition flushUnitToDB :: "env \<Rightarrow> store \<Rightarrow> go_int \<Rightarrow> unitDB \<Rightarrow> store \<times> bool" where
  "flushUnitToDB e tx i udb =
     (if flushFault e = CreateBucketFails then (tx, False)
      else let tx = createBucketIfNotExists tx i in
        if flushFault e = EncodeFails then (tx, False)
        else if flushFault e = PutFails then (tx, False)
        else (AList.update i (Some udb) tx, True))"

definition loadUnitFromDB :: "store \<Rightarrow> go_int \<Rightarrow> unitDB option" where
  \<comment> \<open>nil for a missing bucket and for a bucket whose value does not decode\<close>
  "loadUnitFromDB tx i = (case map_of tx i of None \<Rightarrow> None | Some b \<Rightarrow> b)"

subsection \<open>Creating the engine\<close>

text \<open>
  The visitor of \<^verbatim>\<open>tx.ForEach\<close> in \<^verbatim>\<open>createObject\<close>: the buckets are visited in
  key order; one whose identifier is below \<open>firstID\<close> (a signed comparison) is deleted
  and counted, the first other one ends the iteration.
\<close>

fun forEachBkt :: "go_int \<Rightarrow> store \<Rightarrow> store \<Rightarrow> go_int \<Rightarrow> store \<times> go_int" where
  "forEachBkt firstID [] tx unitDel = (tx, unitDel)"
| "forEachBkt firstID ((name, b) # rest) tx unitDel =
     (if sint name < sint firstID
      then forEachBkt firstID rest (AList.delete name tx) (unitDel + 1)
      else (tx, unitDel))"

definition createObject :: "env \<Rightarrow> store \<Rightarrow> string \<Rightarrow> go_int \<Rightarrow> store \<times> statsCtx option" where
  "createObject e disk fname lim =
     (let s = \<lparr>limit = lim * 24, filename = fname, db = DbNil, unit = None\<rparr>;
          (s, opened) = dbOpen e s
      in if \<not> opened then (disk, None)
         else
           let i = now e;
               (disk, udb) =
                 (case beginTxn e disk s of
                    None \<Rightarrow> (disk, None)
                  | Some tx \<Rightarrow>
                      let firstID = i - limit s - 1;
                          (tx, unitDel) = forEachBkt firstID tx tx 0;
                          udb = loadUnitFromDB tx i
                      in if unitDel \<noteq> 0 then (tx, udb) else (disk, udb));
               u = initUnit unit0 i;
               u = (case udb of None \<Rightarrow> u | Some r \<Rightarrow> deserialize u r)
           in (disk, Some (s\<lparr>unit := Some u\<rparr>)))"

subsection \<open>Rotation\<close>

text \<open>
  One iteration of the loop of \<^verbatim>\<open>periodicFlush\<close>. The loop ends when the unit is nil,
  sleeps a second while the hour is the same, and rotates otherwise; the outcome says
  which, and how the transaction ended. No other thread runs in the model, so the unit
  that \<^verbatim>\<open>swapUnit\<close> returns is the one read at the head of the loop.
\<close>

datatype flushOutcome = LoopExit | Sleep | NoTxn | Commit | Rollback

definition periodicFlush :: "env \<Rightarrow> store \<Rightarrow> statsCtx \<Rightarrow> store \<times> statsCtx \<times> flushOutcome" where
  "periodicFlush e disk s =
     (case unit s of
        None \<Rightarrow> (disk, s, LoopExit)
      | Some cur \<Rightarrow>
          let i = now e in
          if unit_id cur = i then (disk, s, Sleep)
          else
            let nu = initUnit unit0 i;
                (old, s) = swapUnit s (Some nu);
                udb = serialize cur
            in (case beginTxn e disk s of
                  None \<Rightarrow> (disk, s, NoTxn)
                | Some tx \<Rightarrow>
                    (let (tx, ok1) = flushUnitToDB e tx (unit_id cur) udb;
                         (tx, ok2) = deleteUnit tx (i - limit s)
                     in if ok1 \<or> ok2 then (tx, s, Commit) else (disk, s, Rollback))))"

subsection \<open>The public operations\<close>


definition Close :: "env \<Rightarrow> store \<Rightarrow> statsCtx \<Rightarrow> fault + store \<times> statsCtx" where
  "Close e disk s =
     (let (old, s) = swapUnit s None
      in case old of
           None \<Rightarrow> Inl NilDereference
         | Some u \<Rightarrow>
             let udb = serialize u;
                 disk = (case beginTxn e disk s of
                           None \<Rightarrow> disk
                         | Some tx \<Rightarrow>
                             let (tx, ok) = flushUnitToDB e tx (unit_id u) udb
                             in if ok then tx else disk);
                 s = (if db s \<noteq> DbNil then s\<lparr>db := DbClosed\<rparr> else s)
             in Inr (disk, s))"

text \<open>
  \<^verbatim>\<open>Clear\<close> closes the store and opens the file of the same name again; it does not
  remove or truncate the file, so the buckets stay.
\<close>

definition Clear :: "env \<Rightarrow> store \<Rightarrow> statsCtx \<Rightarrow> store \<times> statsCtx" where
  "Clear e disk s =
     (let s = (case beginTxn e disk s of
                 None \<Rightarrow> s
               | Some tx \<Rightarrow> fst (dbOpen e (s\<lparr>db := DbNil\<rparr>)));
          u = initUnit unit0 (now e);
          (old, s) = swapUnit s (Some u)
      in (disk, s))"

text \<open>
  Modelled from the spec: an ingested event \<^verbatim>\<open>Entry\<close> (declared outside the file) has a
  result classification, a domain name, a client address as raw bytes and a
  duration in microseconds. \<^verbatim>\<open>e.Client.String()\<close> is the library's rendering of an
  address; \<^verbatim>\<open>Update\<close> takes it as the parameter \<open>ipString\<close>.
\<close>

record Entry =
  Domain :: string
  Client :: "8 word list"
  Result :: go_int
  Time :: go_uint

definition Update :: "(8 word list \<Rightarrow> string) \<Rightarrow> statsCtx \<Rightarrow> Entry \<Rightarrow> fault + statsCtx" where
  "Update ipString s e =
     (if Result e = 0 \<or> length (Domain e) = 0 \<or>
         \<not> (length (Client e) = 4 \<or> length (Client e) = 16)
      then Inr s
      else
        let client = ipString (Client e)
        in case unit s of
             None \<Rightarrow> Inl NilDereference
           | Some u \<Rightarrow>
               andThen (at (nResult u) (Result e)) (\<lambda>r.
                 let u = u\<lparr>nResult := (nResult u)[nat (sint (Result e)) := r + 1]\<rparr>;
                     u = (if Result e = RNotFiltered
                          then u\<lparr>domains := mapInc (domains u) (Domain e)\<rparr>
                          else u\<lparr>blockedDomains := mapInc (blockedDomains u) (Domain e)\<rparr>);
                     u = u\<lparr>clients := mapInc (clients u) client\<rparr>;
                     u = u\<lparr>timeSum := timeSum u + Time e\<rparr>;
                     u = u\<lparr>nTotal := nTotal u + 1\<rparr>
                 in Inr (s\<lparr>unit := Some u\<rparr>)))"

subsection \<open>The query\<close>

text \<open>
  The loop \<^verbatim>\<open>for i := firstID; i != lastID; i++\<close> of \<^verbatim>\<open>GetData\<close>. The counter is a
  64-bit integer and wraps around, so the loop ends for every pair of bounds, after
  \<open>unat (lastID - firstID)\<close> rounds.
\<close>

function loadUnits :: "store \<Rightarrow> go_int \<Rightarrow> go_int \<Rightarrow> unitDB list \<Rightarrow> unitDB list" where
  "loadUnits tx i lastID units =
     (if i \<noteq> lastID
      then let u = (case loadUnitFromDB tx i of
                      None \<Rightarrow> unitDB0\<lparr>NResult := replicate (nat (sint rLast)) 0\<rparr>
                    | Some u \<Rightarrow> u)
           in loadUnits tx (i + 1) lastID (units @ [u])
      else units)"
  by pat_completeness auto
termination
proof (relation "measure (\<lambda>(tx, i, lastID, units). unat (lastID - i))")
  show "wf (measure (\<lambda>(tx, i, lastID, units). unat (lastID - i)))"
    by simp
next
  fix tx :: store and i lastID :: go_int and units :: "unitDB list" and x :: unitDB
  assume "i \<noteq> lastID"
  then have "lastID - i \<noteq> 0"
    by simp
  then have "unat (lastID - i - 1) < unat (lastID - i)"
    by (simp add: unat_minus_one unat_gt_0)
  then have "unat (lastID - (i + 1)) < unat (lastID - i)"
    by (simp add: diff_diff_eq add.commute)
  then show "((tx, i + 1, lastID, units @ [x]), (tx, i, lastID, units))
      \<in> measure (\<lambda>(tx, i, lastID, units). unat (lastID - i))"
    by simp
qed

declare loadUnits.simps [simp del]

text \<open>
  The window of per-hour records (lines 424 to 449): nil when no transaction can be
  opened; a panic when \<^verbatim>\<open>units[1:]\<close> is taken of an empty slice; \<^verbatim>\<open>log.Fatalf\<close>
  when the length is not the limit.
\<close>

definition window :: "env \<Rightarrow> store \<Rightarrow> statsCtx \<Rightarrow> fault + (unitDB list) option" where
  "window e disk s =
     (case beginTxn e disk s of
        None \<Rightarrow> Inr None
      | Some tx \<Rightarrow>
          (let lastID = now e;
               firstID = lastID - limit s + 1;
               units = loadUnits tx firstID lastID []
           in case unit s of
                None \<Rightarrow> Inl NilDereference
              | Some cur \<Rightarrow>
                  (let cu = serialize cur;
                       cuID = unit_id cur
                   in andThen
                        (if cuID \<noteq> lastID
                         then (if units = [] then Inl SliceBoundsOutOfRange else Inr (tl units))
                         else Inr units)
                        (\<lambda>units.
                           let units = units @ [cu]
                           in if int (length units) \<noteq> sint (limit s) then Inl Fatal
                              else Inr (Some units)))))"

text \<open>
  The four series (lines 453 to 527) differ in the counter they read. By hour, one
  point per record; by day, the sum since the last point, whenever the identifier is a
  multiple of 24 (\<^verbatim>\<open>%\<close> is the remainder of the truncating division, \<open>smod\<close>).
\<close>

fun byHours :: "(unitDB \<Rightarrow> fault + go_uint) \<Rightarrow> unitDB list \<Rightarrow> fault + go_uint list" where
  "byHours f [] = Inr []"
| "byHours f (u # units) =
     andThen (f u) (\<lambda>v. andThen (byHours f units) (\<lambda>a. Inr (v # a)))"

fun byDays :: "(unitDB \<Rightarrow> fault + go_uint) \<Rightarrow> go_uint \<Rightarrow> go_int \<Rightarrow> unitDB list
    \<Rightarrow> fault + go_uint list" where
  "byDays f sm i [] = Inr []"
| "byDays f sm i (u # units) =
     andThen (f u) (\<lambda>v.
       let sm = sm + v
       in if sint i smod 24 = 0
          then andThen (byDays f 0 (i + 1) units) (\<lambda>a. Inr (sm # a))
          else byDays f sm (i + 1) units)"

definition series :: "TimeUnit \<Rightarrow> (unitDB \<Rightarrow> fault + go_uint) \<Rightarrow> go_int \<Rightarrow> unitDB list
    \<Rightarrow> fault + go_uint list" where
  "series timeUnit f firstID units =
     (if timeUnit = Hours then byHours f units else byDays f 0 firstID units)"

text \<open>
  The top counters (lines 529 to 556): one map for all records of the window, filled
  by \<^verbatim>\<open>m[it.Name] = int(it.Count)\<close>, then sorted and cut by \<^verbatim>\<open>convertMapToArray\<close>.
  \<^verbatim>\<open>GetData\<close> passes \<^verbatim>\<open>maxDomains\<close> or \<^verbatim>\<open>maxClients\<close> for \<open>mx\<close>.
\<close>

definition collectTop :: "(unitDB \<Rightarrow> countPair list) \<Rightarrow> unitDB list \<Rightarrow> gomap" where
  "collectTop sel units =
     foldl (\<lambda>m u. foldl (\<lambda>m it. mapSet m (Name it) (Count it)) m (sel u)) [] units"

definition convertTopArray :: "countPair list \<Rightarrow> (string \<times> go_uint) list list" where
  "convertTopArray a = map (\<lambda>it. [(Name it, Count it)]) a"

definition topCounters :: "(unitDB \<Rightarrow> countPair list) \<Rightarrow> nat \<Rightarrow> unitDB list
    \<Rightarrow> (string \<times> go_uint) list list" where
  "topCounters sel mx units = convertTopArray (convertMapToArray (collectTop sel units) mx)"

text \<open>
  The total counters (lines 558 to 573): \<^verbatim>\<open>sum\<close> (here \<open>sm\<close>) and \<^verbatim>\<open>timeN\<close>.
\<close>

definition addAt :: "go_uint list \<Rightarrow> go_int \<Rightarrow> go_uint \<Rightarrow> fault + go_uint list" where
  \<comment> \<open>\<^verbatim>\<open>a[i] += v\<close>\<close>
  "addAt a i v = andThen (at a i) (\<lambda>x. Inr (a[nat (sint i) := x + v]))"

definition addKind :: "go_int \<Rightarrow> unitDB \<Rightarrow> unitDB \<Rightarrow> fault + unitDB" where
  \<comment> \<open>\<^verbatim>\<open>sum.NResult[k] += u.NResult[k]\<close>\<close>
  "addKind k u sm =
     andThen (at (NResult u) k) (\<lambda>v.
       andThen (addAt (NResult sm) k v) (\<lambda>r. Inr (sm\<lparr>NResult := r\<rparr>)))"

definition totalStep :: "unitDB \<times> go_int \<Rightarrow> unitDB \<Rightarrow> fault + unitDB \<times> go_int" where
  "totalStep st u =
     (let (sm, timeN) = st;
          sm = sm\<lparr>NTotal := NTotal sm + NTotal u\<rparr>;
          sm = sm\<lparr>TimeAvg := TimeAvg sm + TimeAvg u\<rparr>;
          timeN = (if TimeAvg u \<noteq> 0 then timeN + 1 else timeN)
      in andThen (addKind RFiltered u sm) (\<lambda>sm.
           andThen (addKind RSafeBrowsing u sm) (\<lambda>sm.
             andThen (addKind RSafeSearch u sm) (\<lambda>sm.
               andThen (addKind RParental u sm) (\<lambda>sm. Inr (sm, timeN))))))"

fun totals :: "unitDB \<times> go_int \<Rightarrow> unitDB list \<Rightarrow> fault + unitDB \<times> go_int" where
  "totals st [] = Inr st"
| "totals st (u # units) = andThen (totalStep st u) (\<lambda>st. totals st units)"

text \<open>
  The result of \<^verbatim>\<open>GetData\<close>. The source returns \<^verbatim>\<open>avg_processing_time\<close> as
  \<^verbatim>\<open>float64(sum.TimeAvg/uint(timeN)) / 1000000\<close>, seconds in floating point; the model
  keeps the integer quotient \<^verbatim>\<open>sum.TimeAvg/uint(timeN)\<close>, in microseconds.
\<close>

record stats =
  dns_queries :: "go_uint list"
  blocked_filtering :: "go_uint list"
  replaced_safebrowsing :: "go_uint list"
  replaced_parental :: "go_uint list"
  top_queried_domains :: "(string \<times> go_uint) list list"
  top_blocked_domains :: "(string \<times> go_uint) list list"
  top_clients :: "(string \<times> go_uint) list list"
  num_dns_queries :: go_uint
  num_blocked_filtering :: go_uint
  num_replaced_safebrowsing :: go_uint
  num_replaced_safesearch :: go_uint
  num_replaced_parental :: go_uint
  avg_processing_time :: go_uint
  time_units :: string

definition aggregate :: "TimeUnit \<Rightarrow> go_int \<Rightarrow> unitDB list \<Rightarrow> fault + stats" where
  \<comment> \<open>lines 451 to 588, from the window on\<close>
  "aggregate timeUnit firstID units =
     andThen (series timeUnit (\<lambda>u. Inr (NTotal u)) firstID units) (\<lambda>a1.
     andThen (series timeUnit (\<lambda>u. at (NResult u) RFiltered) firstID units) (\<lambda>a2.
     andThen (series timeUnit (\<lambda>u. at (NResult u) RSafeBrowsing) firstID units) (\<lambda>a3.
     andThen (series timeUnit (\<lambda>u. at (NResult u) RParental) firstID units) (\<lambda>a4.
     let t1 = topCounters Domains maxDomains units;
         t2 = topCounters BlockedDomains maxDomains units;
         t3 = topCounters Clients maxClients units
     in andThen (totals (unitDB0\<lparr>NResult := replicate (nat (sint rLast)) 0\<rparr>, 0) units)
          (\<lambda>(sm, timeN).
     andThen (at (NResult sm) RFiltered) (\<lambda>n1.
     andThen (at (NResult sm) RSafeBrowsing) (\<lambda>n2.
     andThen (at (NResult sm) RSafeSearch) (\<lambda>n3.
     andThen (at (NResult sm) RParental) (\<lambda>n4.
     if timeN = 0 then Inl DivideByZero
     else Inr \<lparr>dns_queries = a1, blocked_filtering = a2, replaced_safebrowsing = a3,
            replaced_parental = a4, top_queried_domains = t1, top_blocked_domains = t2,
            top_clients = t3, num_dns_queries = NTotal sm, num_blocked_filtering = n1,
            num_replaced_safebrowsing = n2, num_replaced_safesearch = n3,
            num_replaced_parental = n4, avg_processing_time = TimeAvg sm div timeN,
            time_units = (if timeUnit = Days then ''days'' else ''hours'')\<rparr>)))))))))"

definition GetData :: "env \<Rightarrow> store \<Rightarrow> statsCtx \<Rightarrow> TimeUnit \<Rightarrow> fault + stats option" where
  "GetData e disk s timeUnit =
     andThen (window e disk s) (\<lambda>w.
       case w of
         None \<Rightarrow> Inr None
       | Some units \<Rightarrow>
           andThen (aggregate timeUnit (now e - limit s + 1) units) (\<lambda>d. Inr (Some d)))"

subsection \<open>Closing and creating again\<close>

text \<open>\<^verbatim>\<open>Close\<close>, then \<^verbatim>\<open>createObject\<close> on the file that \<^verbatim>\<open>Close\<close> left.\<close>

definition closeThenCreate :: "env \<Rightarrow> store \<Rightarrow> statsCtx \<Rightarrow> go_int
    \<Rightarrow> fault + store \<times> statsCtx option" where
  "closeThenCreate e disk s lim =
     (case Close e disk s of
        Inl f \<Rightarrow> Inl f
      | Inr (disk, closed) \<Rightarrow> Inr (createObject e disk (filename closed) lim))"

subsection \<open>Inputs of the examples\<close>

text \<open>Hour 100, a store that works, a retention of one day.\<close>

definition hour100 :: env where
  "hour100 = \<lparr>now = 100, openFails = False, beginFails = False, flushFault = NoFault\<rparr>"

definition hour101 :: env where
  "hour101 = \<lparr>now = 101, openFails = False, beginFails = False, flushFault = NoFault\<rparr>"

definition freshCtx :: statsCtx where
  "freshCtx = \<lparr>limit = 24, filename = ''stats.db'', db = DbOpen,
     unit = Some (initUnit unit0 100)\<rparr>"

text \<open>The live unit is still the one of hour 99.\<close>

definition staleCtx :: statsCtx where
  "staleCtx = freshCtx\<lparr>unit := Some (initUnit unit0 99)\<rparr>"

text \<open>The unit of hour 100 after one query that was not filtered.\<close>

definition oneQuery :: unit_t where
  "oneQuery = \<lparr>unit_id = 100, nTotal = 1, nResult = [0, 1, 0, 0, 0, 0], timeSum = 50,
     domains = [(''example.org'', 1)], blockedDomains = [],
     clients = [(''192.168.0.1'', 1)]\<rparr>"

definition oneQueryCtx :: statsCtx where
  "oneQueryCtx = freshCtx\<lparr>unit := Some oneQuery\<rparr>"

text \<open>Two records with the domains \<open>{a:5, b:3}\<close> and \<open>{a:2, c:4}\<close>.\<close>

definition bucketAB :: unitDB where
  "bucketAB = unitDB0\<lparr>NResult := replicate 6 0,
     Domains := [\<lparr>Name = ''a'', Count = 5\<rparr>, \<lparr>Name = ''b'', Count = 3\<rparr>]\<rparr>"

definition bucketAC :: unitDB where
  "bucketAC = unitDB0\<lparr>NResult := replicate 6 0,
     Domains := [\<lparr>Name = ''a'', Count = 2\<rparr>, \<lparr>Name = ''c'', Count = 4\<rparr>]\<rparr>"

text \<open>A record of ten queries, and stores that hold it.\<close>

definition tenQueries :: unitDB where
  "tenQueries = \<lparr>NTotal = 10, NResult = [0, 10, 0, 0, 0, 0],
     Domains = [\<lparr>Name = ''example.org'', Count = 10\<rparr>], BlockedDomains = [],
     Clients = [\<lparr>Name = ''192.168.0.1'', Count = 10\<rparr>], TimeAvg = 7\<rparr>"

definition storeHour99 :: store where
  "storeHour99 = [(99, Some tenQueries)]"

definition storeOld :: store where
  "storeOld = [(70, Some tenQueries), (77, Some tenQueries)]"

text \<open>An event whose classification is none of the known ones.\<close>

definition unknownKind :: Entry where
  "unknownKind = \<lparr>Domain = ''example.org'', Client = [192, 168, 0, 1], Result = rLast,
     Time = 3\<rparr>"

text \<open>A day of records with one query each.\<close>

definition dayOfOnes :: "unitDB list" where
  "dayOfOnes = replicate 24 (unitDB0\<lparr>NTotal := 1, NResult := replicate 6 0\<rparr>)"

text \<open>Hour 101 with a store that refuses the \<^verbatim>\<open>Put\<close> of a flush.\<close>

definition hour101PutFails :: env where
  "hour101PutFails = hour101\<lparr>flushFault := PutFails\<rparr>"

text \<open>The live unit is the one of hour 77, a day before hour 101.\<close>

definition dayOldCtx :: statsCtx where
  "dayOldCtx = freshCtx\<lparr>unit := Some (oneQuery\<lparr>unit_id := 77\<rparr>)\<rparr>"

text \<open>
  Hour 47 with a limit of 24: the window is the hours 24 to 47. The store holds one
  query for each of the hours 24 to 46, the live unit the one query of hour 47.
\<close>

definition hour47 :: env where
  "hour47 = \<lparr>now = 47, openFails = False, beginFails = False, flushFault = NoFault\<rparr>"

definition oneEach :: unitDB where
  "oneEach = \<lparr>NTotal = 1, NResult = [0, 1, 0, 0, 0, 0],
     Domains = [\<lparr>Name = ''example.org'', Count = 1\<rparr>], BlockedDomains = [],
     Clients = [\<lparr>Name = ''192.168.0.1'', Count = 1\<rparr>], TimeAvg = 50\<rparr>"

definition storeDay :: store where
  "storeDay = map (\<lambda>n. (of_nat n, Some oneEach)) [24..<47]"

definition ctx47 :: statsCtx where
  "ctx47 = freshCtx\<lparr>unit := Some (oneQuery\<lparr>unit_id := 47\<rparr>)\<rparr>"

text \<open>The unit of hour 100 after one query that took no measurable time.\<close>

definition instantQueryCtx :: statsCtx where
  "instantQueryCtx = freshCtx\<lparr>unit := Some (oneQuery\<lparr>timeSum := 0\<rparr>)\<rparr>"

section \<open>Properties\<close>

subsection \<open>Signed and unsigned readings of a 64-bit integer\<close>

lemma sint_go_int:
  "sint (w :: go_int) = (if uint w < 2 ^ 63 then uint w else uint w - 2 ^ 64)"
proof -
  have b: "0 \<le> uint w" "uint w < 2 ^ 64"
    using uint_lt2p [of w] by simp_all
  have "sint w = (uint w + 2 ^ 63) mod 2 ^ 64 - 2 ^ 63"
    by (simp add: sint_uint signed_take_bit_eq_take_bit_shift take_bit_eq_mod)
  also have "\<dots> = (if uint w < 2 ^ 63 then uint w else uint w - 2 ^ 64)"
  proof (cases "uint w < 2 ^ 63")
    case True
    with b have "(uint w + 2 ^ 63) mod 2 ^ 64 = uint w + 2 ^ 63"
      by simp
    with True show ?thesis by simp
  next
    case False
    with b have "(uint w + 2 ^ 63) mod 2 ^ 64 = uint w + 2 ^ 63 - 2 ^ 64"
      by (simp add: mod_pos_geq)
    with False show ?thesis by simp
  qed
  finally show ?thesis .
qed


subsection \<open>The loading loop\<close>

lemma length_loadUnits:
  "length (loadUnits tx i lastID units) = length units + unat (lastID - i)"
proof (induction tx i lastID units rule: loadUnits.induct)
  case (1 tx i lastID units)
  show ?case
  proof (cases "i = lastID")
    case True
    then show ?thesis by (subst loadUnits.simps) simp
  next
    case False
    then have ne: "lastID - i \<noteq> 0"
      by simp
    have step: "lastID - (i + 1) = lastID - i - 1"
      by simp
    have "unat (lastID - (i + 1)) + 1 = unat (lastID - i)"
      unfolding step using ne by (simp add: unat_minus_one unat_gt_0)
    with False "1.IH" show ?thesis
      by (subst loadUnits.simps) (simp add: Let_def)
  qed
qed


subsection \<open>The window of a query\<close>

lemma rounds_plus_one:
  assumes "1 \<le> sint (lim :: go_int)"
  shows "int (unat (lim - 1)) + 1 = sint lim"
proof -
  from assms have "lim \<noteq> 0"
    by auto
  then have "unat (lim - 1) = unat lim - 1" "0 < unat lim"
    by (simp_all add: unat_minus_one unat_gt_0)
  moreover have "uint lim = int (unat lim)"
    by simp
  moreover have "unat lim < 2 ^ 64"
    using unsigned_less [of lim, where ?'a = nat] by simp
  ultimately show ?thesis
    using assms unfolding sint_go_int by (auto simp del: of_nat_unat split: if_splits)
qed

lemma rounds_never_limit: "int (unat (lim - 1)) \<noteq> sint (lim :: go_int)"
proof (cases "lim = 0")
  case True
  then show ?thesis
    by (simp add: unsigned_minus_1_eq_mask mask_eq_exp_minus_1)
next
  case False
  then have "unat (lim - 1) = unat lim - 1" "0 < unat lim"
    by (simp_all add: unat_minus_one unat_gt_0)
  moreover have "uint lim = int (unat lim)"
    by simp
  moreover have "unat lim < 2 ^ 64"
    using unsigned_less [of lim, where ?'a = nat] by simp
  ultimately show ?thesis
    unfolding sint_go_int by (auto simp del: of_nat_unat split: if_splits)
qed

text \<open>
  When the live unit is the one of the current hour and the limit is at least 1, the
  window is the loaded records followed by the live one, and has \<open>limit\<close> entries.
\<close>

lemma window_same_hour:
  assumes "beginTxn e disk s = Some tx" and "unit s = Some cur" and "unit_id cur = now e"
    and "1 \<le> sint (limit s)"
  shows "window e disk s =
      Inr (Some (loadUnits tx (now e - limit s + 1) (now e) [] @ [serialize cur]))"
    and "length (loadUnits tx (now e - limit s + 1) (now e) [] @ [serialize cur])
      = nat (sint (limit s))"
proof -
  have len: "int (length (loadUnits tx (now e - limit s + 1) (now e) [] @ [serialize cur]))
      = sint (limit s)"
    using rounds_plus_one [OF assms(4)] by (simp add: length_loadUnits)
  then show "length (loadUnits tx (now e - limit s + 1) (now e) [] @ [serialize cur])
      = nat (sint (limit s))"
    by linarith
  from len assms(1-3) show "window e disk s =
      Inr (Some (loadUnits tx (now e - limit s + 1) (now e) [] @ [serialize cur]))"
    by (simp add: window_def andThen_def Let_def)
qed

text \<open>
  When the live unit is not the one of the current hour, the oldest record is dropped
  and the window is one short of the limit, whatever the limit: the query ends in
  \<^verbatim>\<open>log.Fatalf\<close>, or in a panic when nothing was loaded.
\<close>

lemma window_stale_unit:
  assumes "beginTxn e disk s = Some tx" and "unit s = Some cur" and "unit_id cur \<noteq> now e"
  shows "window e disk s = (if limit s = 1 then Inl SliceBoundsOutOfRange else Inl Fatal)"
proof -
  let ?units = "loadUnits tx (now e - limit s + 1) (now e) []"
  have len: "length ?units = unat (limit s - 1)"
    by (simp add: length_loadUnits)
  show ?thesis
  proof (cases "limit s = 1")
    case True
    with len have "?units = []"
      by simp
    with assms True show ?thesis
      by (simp add: window_def andThen_def Let_def)
  next
    case False
    then have "limit s - 1 \<noteq> 0"
      by simp
    then have pos: "0 < unat (limit s - 1)"
      by (simp add: unat_gt_0)
    with len have ne: "?units \<noteq> []"
      by auto
    from len pos have l2: "length (tl ?units @ [serialize cur]) = unat (limit s - 1)"
      by simp
    have "int (length (tl ?units @ [serialize cur])) \<noteq> sint (limit s)"
      unfolding l2 by (rule rounds_never_limit)
    moreover from len pos have "1 + int (length ?units - Suc 0) = int (length ?units)"
      by simp
    ultimately show ?thesis
      using ne assms False
      by (simp add: window_def andThen_def Let_def)
  qed
qed

text \<open>
  C1. At hour 100 with a limit of 24 and a live unit that is still the one of hour 99,
  the 23 loaded records lose their oldest and the live record is appended: the window
  has 23 entries, not 24, and the query ends in \<^verbatim>\<open>log.Fatalf\<close>.
\<close>

theorem window_stale_is_short:
  "length (tl (loadUnits [] (now hour100 - limit staleCtx + 1) (now hour100) [])
      @ [serialize (initUnit unit0 99)]) = 23
   \<and> window hour100 [] staleCtx = Inl Fatal
   \<and> GetData hour100 [] staleCtx Hours = Inl Fatal"
  by code_simp

subsection \<open>The top counters\<close>

text \<open>
  C2. Merging the records with the domains \<open>{a:5, b:3}\<close> and \<open>{a:2, c:4}\<close> with a
  limit of 2: the count of \<open>a\<close> is the one of the last record, 2, not the sum 7, and
  the result is \<open>[{c:4}, {b:3}]\<close>.
\<close>

theorem topCounters_last_count_wins:
  "collectTop Domains [bucketAB, bucketAC] = [(''a'', 2), (''b'', 3), (''c'', 4)]
   \<and> topCounters Domains 2 [bucketAB, bucketAC] = [[(''c'', 4)], [(''b'', 3)]]"
  by code_simp

subsection \<open>Encoding and decoding\<close>

lemma foldl_append_each: "foldl (\<lambda>r it. r @ [it]) acc xs = acc @ xs"
  by (induction xs arbitrary: acc) simp_all

lemma roundtrip_nTotal: "nTotal (deserialize (initUnit unit0 i) (serialize u)) = nTotal u"
  by (simp add: deserialize_def serialize_def initUnit_def Let_def)

text \<open>
  \<^verbatim>\<open>deserialize\<close> appends the stored counters to the six zeros that \<^verbatim>\<open>initUnit\<close>
  made.
\<close>

lemma roundtrip_nResult:
  "nResult (deserialize (initUnit unit0 i) (serialize u)) = replicate 6 0 @ nResult u"
  by (simp add: deserialize_def serialize_def initUnit_def Let_def foldl_append_each rLast_def)

text \<open>
  The sort gives back the elements it was given, in descending order of the counts.
\<close>

lemma mset_shift: "mset (shift lt x rp) = add_mset x (mset rp)"
  by (induction rp) simp_all

lemma mset_foldl_shift: "mset (foldl (\<lambda>rp x. shift lt x rp) acc a) = mset acc + mset a"
  by (induction a arbitrary: acc) (simp_all add: mset_shift)

lemma mset_sortSlice: "mset (sortSlice lt a) = mset a"
  by (simp add: sortSlice_def mset_foldl_shift)

lemma set_shift: "set (shift lt x rp) = insert x (set rp)"
  by (induction rp) auto

lemma shift_ascending:
  assumes "sorted_wrt (\<lambda>p q. Count p \<le> Count q) rp"
  shows "sorted_wrt (\<lambda>p q. Count p \<le> Count q) (shift lessCount x rp)"
  using assms
proof (induction rp)
  case Nil
  then show ?case by simp
next
  case (Cons p rp)
  show ?case
  proof (cases "lessCount x p")
    case True
    with Cons show ?thesis
      by (auto simp: set_shift lessCount_def split: if_splits)
  next
    case False
    then have "Count x \<le> Count p"
      by (simp add: lessCount_def split: if_splits)
    with False Cons.prems show ?thesis
      by (auto intro: order_trans)
  qed
qed

lemma foldl_shift_ascending:
  assumes "sorted_wrt (\<lambda>p q. Count p \<le> Count q) acc"
  shows "sorted_wrt (\<lambda>p q. Count p \<le> Count q) (foldl (\<lambda>rp x. shift lessCount x rp) acc a)"
  using assms by (induction a arbitrary: acc) (simp_all add: shift_ascending)

lemma sortSlice_descending:
  "sorted_wrt (\<lambda>p q. Count q \<le> Count p) (sortSlice lessCount a)"
  using foldl_shift_ascending [of "[]" a] by (simp add: sortSlice_def sorted_wrt_rev)

lemma convertMapToArray_take:
  "convertMapToArray m mx =
     take mx (sortSlice lessCount (map (\<lambda>(k, v). \<lparr>Name = k, Count = v\<rparr>) m))"
  by (simp add: convertMapToArray_def Let_def)

lemma length_sortSlice: "length (sortSlice lt a) = length a"
proof -
  have "size (mset (sortSlice lt a)) = size (mset a)"
    by (simp only: mset_sortSlice)
  then show ?thesis
    by (simp only: size_mset)
qed

lemma convertMapToArray_top:
  "\<exists>rest. mset (map (\<lambda>(k, v). \<lparr>Name = k, Count = v\<rparr>) m) = mset (convertMapToArray m mx) + mset rest
      \<and> length (convertMapToArray m mx) = min mx (length m)
      \<and> (\<forall>x\<in>set (convertMapToArray m mx). \<forall>y\<in>set rest. Count y \<le> Count x)"
proof -
  let ?a = "sortSlice lessCount (map (\<lambda>(k, v). \<lparr>Name = k, Count = v\<rparr>) m)"
  have "mset (take mx ?a) + mset (drop mx ?a) = mset (take mx ?a @ drop mx ?a)"
    by (simp only: mset_append)
  then have "mset (take mx ?a) + mset (drop mx ?a) = mset ?a"
    by (simp only: append_take_drop_id)
  moreover have "sorted_wrt (\<lambda>p q. Count q \<le> Count p) (take mx ?a @ drop mx ?a)"
    by (simp add: sortSlice_descending)
  then have "\<forall>x\<in>set (take mx ?a). \<forall>y\<in>set (drop mx ?a). Count y \<le> Count x"
    by (simp only: sorted_wrt_append) simp
  ultimately show ?thesis
    by (intro exI [of _ "drop mx ?a"])
      (simp add: convertMapToArray_take mset_sortSlice length_sortSlice min.commute)
qed

lemma convertMapToArray_all:
  assumes "length m \<le> mx"
  shows "mset (convertMapToArray m mx) = mset (map (\<lambda>(k, v). \<lparr>Name = k, Count = v\<rparr>) m)"
  using assms by (simp add: convertMapToArray_take length_sortSlice mset_sortSlice)

lemma map_of_foldl_mapSet:
  "map_of (foldl (\<lambda>m it. mapSet m (Name it) (Count it)) acc a) =
     map_of (rev (map (\<lambda>it. (Name it, Count it)) a) @ acc)"
proof (induction a arbitrary: acc)
  case Nil
  then show ?case by simp
next
  case (Cons x a)
  have "map_of (mapSet acc (Name x) (Count x)) = map_of ((Name x, Count x) # acc)"
    by (simp add: mapSet_def update_conv')
  then show ?case
    by (simp add: Cons.IH)
qed

lemma map_of_convertArrayToMap:
  "map_of (convertArrayToMap a) = map_of (rev (map (\<lambda>it. (Name it, Count it)) a))"
  by (simp add: convertArrayToMap_def map_of_foldl_mapSet)

lemma pairs_of_array:
  "map (\<lambda>it. (Name it, Count it)) (map (\<lambda>(k, v). \<lparr>Name = k, Count = v\<rparr>) m) = m"
  by (induction m) auto

text \<open>With at most \<open>mx\<close> keys, a map comes back from the array with every entry.\<close>

lemma roundtrip_map:
  assumes "distinct (map fst m)" and "length m \<le> mx"
  shows "map_of (convertArrayToMap (convertMapToArray m mx)) = map_of m"
proof -
  let ?decoded = "rev (map (\<lambda>it. (Name it, Count it)) (convertMapToArray m mx))"
  have "mset ?decoded = mset (map (\<lambda>it. (Name it, Count it)) (map (\<lambda>(k, v). \<lparr>Name = k, Count = v\<rparr>) m))"
    using convertMapToArray_all [OF assms(2)] by (simp only: mset_rev mset_map)
  then have m: "mset ?decoded = mset m"
    by (simp only: pairs_of_array)
  then have "image_mset fst (mset ?decoded) = image_mset fst (mset m)"
    by (rule arg_cong)
  then have "mset (map fst ?decoded) = mset (map fst m)"
    by (simp only: mset_map)
  then have "distinct (map fst ?decoded) = distinct (map fst m)"
    by (rule mset_eq_imp_distinct_iff)
  with assms(1) have "distinct (map fst ?decoded)"
    by (simp only:)
  moreover from m have "set ?decoded = set m"
    by (rule mset_eq_setD)
  ultimately have "map_of ?decoded = map_of m"
    using assms(1) by (simp only: map_of_inject_set)
  then show ?thesis
    by (simp only: map_of_convertArrayToMap)
qed

text \<open>
  With more keys the array holds \<open>mx\<close> of the entries, none with a smaller count than
  an entry left out, and decoding gives those entries back.
\<close>

lemma roundtrip_map_top:
  assumes "distinct (map fst m)"
  shows "map_of (convertArrayToMap (convertMapToArray m mx)) \<subseteq>\<^sub>m map_of m"
proof -
  let ?arr = "convertMapToArray m mx"
  let ?pair = "\<lambda>it. (Name it, Count it)"
  let ?decoded = "rev (map ?pair ?arr)"
  obtain rest where r: "mset (map (\<lambda>(k, v). \<lparr>Name = k, Count = v\<rparr>) m) = mset ?arr + mset rest"
    using convertMapToArray_top [of m mx] by blast
  have "mset (map ?pair (map (\<lambda>(k, v). \<lparr>Name = k, Count = v\<rparr>) m))
      = image_mset ?pair (mset (map (\<lambda>(k, v). \<lparr>Name = k, Count = v\<rparr>) m))"
    by (simp only: mset_map)
  also have "\<dots> = image_mset ?pair (mset ?arr + mset rest)"
    by (simp only: r)
  also have "\<dots> = mset ?decoded + mset (map ?pair rest)"
    by (simp only: mset_rev mset_map image_mset_union)
  finally have m: "mset m = mset ?decoded + mset (map ?pair rest)"
    by (simp only: pairs_of_array)
  have "mset (map fst m) = image_mset fst (mset m)"
    by (simp only: mset_map)
  also have "\<dots> = image_mset fst (mset ?decoded + mset (map ?pair rest))"
    by (simp only: m)
  also have "\<dots> = mset (map fst ?decoded @ map fst (map ?pair rest))"
    by (simp only: mset_append mset_map image_mset_union)
  finally have "mset (map fst m) = mset (map fst ?decoded @ map fst (map ?pair rest))" .
  then have "distinct (map fst m) = distinct (map fst ?decoded @ map fst (map ?pair rest))"
    by (rule mset_eq_imp_distinct_iff)
  with assms have "distinct (map fst ?decoded @ map fst (map ?pair rest))"
    by (simp only:)
  then have d: "distinct (map fst ?decoded)"
    by (simp only: distinct_append)
  have "set ?decoded \<subseteq> set_mset (mset ?decoded + mset (map ?pair rest))"
    by simp
  also have "\<dots> = set m"
    by (simp only: m [symmetric] set_mset_mset)
  finally have sub: "set ?decoded \<subseteq> set m" .
  show ?thesis
    unfolding map_of_convertArrayToMap map_le_def
  proof
    fix k assume "k \<in> dom (map_of ?decoded)"
    then obtain v where v: "map_of ?decoded k = Some v"
      by auto
    with d have "(k, v) \<in> set ?decoded"
      by (simp only: map_of_eq_Some_iff)
    with sub have "(k, v) \<in> set m"
      by auto
    with assms have "map_of m k = Some v"
      by simp
    with v show "map_of ?decoded k = map_of m k"
      by simp
  qed
qed

lemma roundtrip_maps:
  assumes "distinct (map fst (domains u))" and "length (domains u) \<le> 100"
    and "distinct (map fst (blockedDomains u))" and "length (blockedDomains u) \<le> 100"
    and "distinct (map fst (clients u))" and "length (clients u) \<le> 100"
  shows "map_of (domains (deserialize (initUnit unit0 i) (serialize u))) = map_of (domains u)"
    and "map_of (blockedDomains (deserialize (initUnit unit0 i) (serialize u)))
      = map_of (blockedDomains u)"
    and "map_of (clients (deserialize (initUnit unit0 i) (serialize u))) = map_of (clients u)"
  using assms
  by (simp_all add: deserialize_def serialize_def Let_def roundtrip_map maxDomains_def
      maxClients_def)

text \<open>
  The merged map of the top counters has, for each name, the count of the last record
  of the window that names it.
\<close>

lemma collectTop_last_wins:
  "map_of (collectTop sel units) =
     map_of (rev (concat (map (\<lambda>u. map (\<lambda>it. (Name it, Count it)) (sel u)) units)))"
proof -
  have "map_of (foldl (\<lambda>m u. foldl (\<lambda>m it. mapSet m (Name it) (Count it)) m (sel u)) acc units)
      = map_of (rev (concat (map (\<lambda>u. map (\<lambda>it. (Name it, Count it)) (sel u)) units)) @ acc)"
    for acc
  proof (induction units arbitrary: acc)
    case Nil
    then show ?case by simp
  next
    case (Cons u units)
    show ?case
      by (simp add: Cons.IH map_of_foldl_mapSet map_add_assoc)
  qed
  from this [of "[]"] show ?thesis
    by (simp add: collectTop_def)
qed

text \<open>
  C3. Encoding the unit with one unfiltered query and decoding the record into a
  fresh unit gives twelve counters, the six zeros of \<^verbatim>\<open>initUnit\<close> first: the counter
  of the unfiltered queries reads 0 where it was 1.
\<close>

theorem roundtrip_shifts_nResult:
  "nResult oneQuery = [0, 1, 0, 0, 0, 0]
   \<and> nResult (deserialize (initUnit unit0 100) (serialize oneQuery))
       = [0, 0, 0, 0, 0, 0, 0, 1, 0, 0, 0, 0]
   \<and> at (nResult (deserialize (initUnit unit0 100) (serialize oneQuery))) RNotFiltered = Inr 0"
  by code_simp

subsection \<open>Ingesting an event\<close>

lemma Update_rejected:
  assumes "Result e = 0 \<or> Domain e = [] \<or> (length (Client e) \<noteq> 4 \<and> length (Client e) \<noteq> 16)"
  shows "Update ipString s e = Inr s"
  using assms by (auto simp: Update_def)

lemma Update_counts:
  assumes "unit s = Some u" and "Result e \<noteq> 0" and "Domain e \<noteq> []"
    and "length (Client e) = 4 \<or> length (Client e) = 16"
    and "0 \<le> sint (Result e)" and "sint (Result e) < int (length (nResult u))"
  shows "\<exists>u'. Update ipString s e = Inr (s\<lparr>unit := Some u'\<rparr>)
      \<and> nTotal u' = nTotal u + 1
      \<and> nResult u' = (nResult u)[nat (sint (Result e)) := nResult u ! nat (sint (Result e)) + 1]
      \<and> timeSum u' = timeSum u + Time e"
  using assms by (auto simp: Update_def andThen_def at_def Let_def)

lemma Update_unknown_result:
  assumes "unit s = Some u" and "Result e \<noteq> 0" and "Domain e \<noteq> []"
    and "length (Client e) = 4 \<or> length (Client e) = 16"
    and "sint (Result e) < 0 \<or> int (length (nResult u)) \<le> sint (Result e)"
  shows "Update ipString s e = Inl IndexOutOfRange"
  using assms by (auto simp: Update_def andThen_def at_def Let_def)

text \<open>
  C4. An event with a domain, a four-byte address and the classification \<open>rLast\<close>,
  which is none of the known kinds, passes the guard of \<^verbatim>\<open>Update\<close> and panics at
  \<^verbatim>\<open>u.nResult[e.Result]++\<close>: it is not dropped silently.
\<close>

theorem Update_unknown_kind_panics:
  "Update ipString freshCtx unknownKind = Inl IndexOutOfRange"
  by (rule Update_unknown_result [where u = "initUnit unit0 100"])
    (simp_all add: freshCtx_def unknownKind_def initUnit_def rLast_def)

subsection \<open>Clearing\<close>

text \<open>\<^verbatim>\<open>Clear\<close> leaves the store as it is.\<close>

lemma Clear_keeps_store: "fst (Clear e disk s) = disk"
  by (simp add: Clear_def swapUnit_def Let_def split_beta)

text \<open>
  C5. After \<^verbatim>\<open>Clear\<close> on an empty store no record of the window has an average, and
  the query panics in \<^verbatim>\<open>sum.TimeAvg/uint(timeN)\<close>. After \<^verbatim>\<open>Clear\<close> on a store that
  holds the ten queries of hour 99 the store still holds them, and the query counts
  them.
\<close>

theorem GetData_after_Clear:
  "GetData hour100 [] (snd (Clear hour100 [] freshCtx)) Hours = Inl DivideByZero
   \<and> fst (Clear hour100 storeHour99 oneQueryCtx) = storeHour99
   \<and> map_sum id (map_option num_dns_queries)
       (GetData hour100 storeHour99 (snd (Clear hour100 storeHour99 oneQueryCtx)) Hours)
       = Inr (Some 10)
   \<and> map_sum id (map_option top_clients)
       (GetData hour100 storeHour99 (snd (Clear hour100 storeHour99 oneQueryCtx)) Hours)
       = Inr (Some [[(''192.168.0.1'', 10)]])"
  by code_simp

subsection \<open>Rotation\<close>

lemma map_of_insertBucket:
  "k \<notin> fst ` set tx \<Longrightarrow> map_of (insertBucket tx k) = (map_of tx)(k \<mapsto> None)"
  by (induction tx k rule: insertBucket.induct) (auto simp: fun_upd_twist)

lemma map_of_createBucketIfNotExists:
  "map_of (createBucketIfNotExists tx k) =
     (case map_of tx k of None \<Rightarrow> (map_of tx)(k \<mapsto> None) | Some b \<Rightarrow> map_of tx)"
proof (cases "k \<in> fst ` set tx")
  case True
  then have "map_of tx k \<noteq> None"
    by (simp add: map_of_eq_None_iff)
  then obtain b where "map_of tx k = Some b"
    by auto
  with True show ?thesis
    by (simp add: createBucketIfNotExists_def)
next
  case False
  then have "map_of tx k = None"
    by (simp add: map_of_eq_None_iff)
  with False show ?thesis
    by (simp add: createBucketIfNotExists_def map_of_insertBucket)
qed

lemma keys_insertBucket: "fst ` set (insertBucket tx k) = insert k (fst ` set tx)"
  by (induction tx k rule: insertBucket.induct) auto

lemma keys_createBucketIfNotExists:
  "fst ` set (createBucketIfNotExists tx k) = insert k (fst ` set tx)"
  by (auto simp: createBucketIfNotExists_def keys_insertBucket)

lemma map_of_deleteUnit: "map_of (fst (deleteUnit tx i)) = (map_of tx)(i := None)"
  by (auto simp: deleteUnit_def delete_conv' map_of_eq_None_iff fun_eq_iff)

lemma snd_deleteUnit: "snd (deleteUnit tx i) = (i \<in> fst ` set tx)"
  by (simp add: deleteUnit_def)

lemma flush_other_keys:
  "k \<noteq> i \<Longrightarrow> map_of (fst (flushUnitToDB e tx i udb)) k = map_of tx k"
  by (auto simp: flushUnitToDB_def Let_def map_of_createBucketIfNotExists update_conv'
      split: option.splits)

lemma flush_NoFault:
  "flushFault e = NoFault \<Longrightarrow>
     snd (flushUnitToDB e tx i udb) \<and>
     map_of (fst (flushUnitToDB e tx i udb)) = (map_of tx)(i \<mapsto> Some udb)"
  by (auto simp: flushUnitToDB_def Let_def map_of_createBucketIfNotExists update_conv'
      split: option.splits)

lemma snd_flushUnitToDB: "snd (flushUnitToDB e tx i udb) = (flushFault e = NoFault)"
  by (cases "flushFault e") (simp_all add: flushUnitToDB_def Let_def)

lemma keys_update: "fst ` set (AList.update k v al) = insert k (fst ` set al)"
  by (induction al) auto

lemma keys_flushUnitToDB:
  "fst ` set (fst (flushUnitToDB e tx i udb)) =
     (if flushFault e = CreateBucketFails then fst ` set tx else insert i (fst ` set tx))"
  by (cases "flushFault e")
    (simp_all add: flushUnitToDB_def Let_def keys_createBucketIfNotExists keys_update)

lemma map_of_flushUnitToDB:
  "map_of (fst (flushUnitToDB e tx i udb)) i =
     (if flushFault e = NoFault then Some (Some udb)
      else if flushFault e = CreateBucketFails then map_of tx i
      else (case map_of tx i of None \<Rightarrow> Some None | Some b \<Rightarrow> Some b))"
  by (cases "flushFault e")
    (simp_all add: flushUnitToDB_def Let_def map_of_createBucketIfNotExists update_conv'
      split: option.splits)

text \<open>
  C6, as the code has it. Every rotation swaps in a fresh unit for the new hour and
  goes on. When no transaction can be opened the store stays as it is. Otherwise the
  record of the retired unit is written under its identifier, then the one bucket whose
  identifier is \<open>now - limit\<close> is deleted; the transaction is committed when the flush
  or the deletion succeeded and rolled back, the store unchanged, when neither did.
  After a commit the bucket \<open>now - limit\<close> is gone, also when it is the one just
  written; the bucket of the retired unit holds the record when the flush succeeded,
  and what it held before (nothing, if the flush created it) when it did not; every
  other bucket is as it was, however old it is.
\<close>

theorem rotation_flushes_and_deletes_one:
  assumes "unit s = Some cur" and "unit_id cur \<noteq> now e"
  shows "\<exists>disk' out.
      periodicFlush e disk s = (disk', s\<lparr>unit := Some (initUnit unit0 (now e))\<rparr>, out)
      \<and> (out = NoTxn) = (db s \<noteq> DbOpen \<or> beginFails e)
      \<and> (out = Commit) =
          (db s = DbOpen \<and> \<not> beginFails e
           \<and> (flushFault e = NoFault \<or> now e - limit s \<in> fst ` set disk
                \<or> (now e - limit s = unit_id cur \<and> flushFault e \<noteq> CreateBucketFails)))
      \<and> (out = NoTxn \<or> out = Commit \<or> out = Rollback)
      \<and> (out \<noteq> Commit \<longrightarrow> disk' = disk)
      \<and> (out = Commit \<longrightarrow>
            map_of disk' (now e - limit s) = None
          \<and> (\<forall>k. k \<noteq> now e - limit s \<longrightarrow> k \<noteq> unit_id cur \<longrightarrow> map_of disk' k = map_of disk k)
          \<and> (unit_id cur \<noteq> now e - limit s \<longrightarrow>
               map_of disk' (unit_id cur) =
                 (if flushFault e = NoFault then Some (Some (serialize cur))
                  else if flushFault e = CreateBucketFails then map_of disk (unit_id cur)
                  else (case map_of disk (unit_id cur) of
                          None \<Rightarrow> Some None | Some b \<Rightarrow> Some b))))"
proof (cases "db s = DbOpen \<and> \<not> beginFails e")
  case False
  then have "beginTxn e disk (s\<lparr>unit := Some (initUnit unit0 (now e))\<rparr>) = None"
    by (cases "db s") (auto simp: beginTxn_def)
  with assms False show ?thesis
    by (simp add: periodicFlush_def swapUnit_def Let_def)
next
  case True
  let ?s' = "s\<lparr>unit := Some (initUnit unit0 (now e))\<rparr>"
  let ?fl = "flushUnitToDB e disk (unit_id cur) (serialize cur)"
  let ?del = "deleteUnit (fst ?fl) (now e - limit s)"
  let ?ok = "snd ?fl \<or> snd ?del"
  from True have tx: "beginTxn e disk ?s' = Some disk"
    by (simp add: beginTxn_def)
  have pf: "periodicFlush e disk s =
      (if ?ok then fst ?del else disk, ?s', if ?ok then Commit else Rollback)"
    using assms tx
    by (simp add: periodicFlush_def swapUnit_def Let_def split_beta)
  have ok: "?ok = (flushFault e = NoFault \<or> now e - limit s \<in> fst ` set disk
      \<or> (now e - limit s = unit_id cur \<and> flushFault e \<noteq> CreateBucketFails))"
    by (auto simp: snd_flushUnitToDB snd_deleteUnit keys_flushUnitToDB)
  have gone: "map_of (fst ?del) (now e - limit s) = None"
    by (simp add: map_of_deleteUnit)
  have other: "map_of (fst ?del) k = map_of disk k"
    if "k \<noteq> now e - limit s" "k \<noteq> unit_id cur" for k
    using that by (simp add: map_of_deleteUnit flush_other_keys)
  have own: "map_of (fst ?del) (unit_id cur) =
      (if flushFault e = NoFault then Some (Some (serialize cur))
       else if flushFault e = CreateBucketFails then map_of disk (unit_id cur)
       else (case map_of disk (unit_id cur) of None \<Rightarrow> Some None | Some b \<Rightarrow> Some b))"
    if "unit_id cur \<noteq> now e - limit s"
    using that map_of_flushUnitToDB [of e disk "unit_id cur" "serialize cur"]
    by (simp add: map_of_deleteUnit)
  show ?thesis
    unfolding pf using True ok gone other own
    by (intro exI [of _ "if ?ok then fst ?del else disk"]
        exI [of _ "if ?ok then Commit else Rollback"]) auto
qed

theorem rotation_flushes_and_deletes_one_witness:
  "periodicFlush hour101 storeOld oneQueryCtx =
     ([(70, Some tenQueries), (100, Some (serialize oneQuery))],
      oneQueryCtx\<lparr>unit := Some (initUnit unit0 101)\<rparr>, Commit)"
proof -
  have h: "unit oneQueryCtx = Some oneQuery" "unit_id oneQuery \<noteq> now hour101"
    by (simp_all add: oneQueryCtx_def oneQuery_def hour101_def freshCtx_def)
  from rotation_flushes_and_deletes_one [OF h, of storeOld] obtain disk' out where
    "periodicFlush hour101 storeOld oneQueryCtx =
       (disk', oneQueryCtx\<lparr>unit := Some (initUnit unit0 (now hour101))\<rparr>, out)"
    by blast
  moreover have "periodicFlush hour101 storeOld oneQueryCtx =
     ([(70, Some tenQueries), (100, Some (serialize oneQuery))],
      oneQueryCtx\<lparr>unit := Some (initUnit unit0 101)\<rparr>, Commit)"
    by code_simp
  ultimately show ?thesis
    by simp
qed

text \<open>
  C6, as the claim has it, fails. At hour 101 with a limit of 24 the bucket of hour 70
  is older than \<open>now - limit = 77\<close> and is still in the store after the rotation has
  committed. When the retired unit is the one of hour 77 its record is written and
  deleted again in the same transaction. When the flush fails at \<^verbatim>\<open>Put\<close> and the
  deletion succeeds, the commit leaves an empty bucket for hour 100.
\<close>

theorem rotation_keeps_older_buckets:
  "snd (snd (periodicFlush hour101 storeOld oneQueryCtx)) = Commit
   \<and> map_of (fst (periodicFlush hour101 storeOld oneQueryCtx)) 70 = Some (Some tenQueries)
   \<and> sint (70 :: go_int) < sint (now hour101 - limit oneQueryCtx)
   \<and> periodicFlush hour101 [] dayOldCtx =
       ([], dayOldCtx\<lparr>unit := Some (initUnit unit0 101)\<rparr>, Commit)
   \<and> periodicFlush hour101PutFails storeOld oneQueryCtx =
       ([(70, Some tenQueries), (100, None)],
        oneQueryCtx\<lparr>unit := Some (initUnit unit0 101)\<rparr>, Commit)"
  by code_simp

subsection \<open>Closing and creating again\<close>

text \<open>The purge of \<^verbatim>\<open>createObject\<close> leaves every bucket that is not below \<open>firstID\<close>.\<close>

lemma forEachBkt_keeps:
  assumes "\<not> sint k < sint firstID"
  shows "map_of (fst (forEachBkt firstID rest tx n)) k = map_of tx k"
  using assms
proof (induction firstID rest tx n rule: forEachBkt.induct)
  case (1 firstID tx unitDel)
  then show ?case by simp
next
  case (2 firstID name b rest tx unitDel)
  then show ?case
    by (auto simp: delete_conv')
qed

text \<open>
  Closing and creating again in the same hour, with a store that works: the unit that
  comes back is the decoding of the encoding of the unit that was closed.
\<close>

lemma closeThenCreate_decodes:
  assumes "unit s = Some u" and "unit_id u = now e" and "db s = DbOpen"
    and "\<not> beginFails e" and "\<not> openFails e" and "flushFault e = NoFault"
    and "\<not> sint (now e) < sint (now e - lim * 24 - 1)"
  shows "\<exists>disk' s'. closeThenCreate e disk s lim = Inr (disk', Some s')
      \<and> unit s' = Some (deserialize (initUnit unit0 (now e)) (serialize u))
      \<and> limit s' = lim * 24"
proof -
  let ?fl = "flushUnitToDB e disk (now e) (serialize u)"
  have cl: "Close e disk s = Inr (fst ?fl, s\<lparr>unit := None, db := DbClosed\<rparr>)"
    using assms(1-4,6) flush_NoFault [of e disk "now e" "serialize u"]
    by (simp add: Close_def swapUnit_def beginTxn_def Let_def split_beta)
  let ?s1 = "\<lparr>limit = lim * 24, filename = filename s, db = DbOpen, unit = None\<rparr>"
  let ?fe = "forEachBkt (now e - lim * 24 - 1) (fst ?fl) (fst ?fl) 0"
  have "map_of (fst ?fe) (now e) = map_of (fst ?fl) (now e)"
    using assms(7) by (rule forEachBkt_keeps)
  also have "\<dots> = Some (Some (serialize u))"
    using flush_NoFault [OF assms(6), of disk "now e" "serialize u"] by simp
  finally have ld: "loadUnitFromDB (fst ?fe) (now e) = Some (serialize u)"
    by (simp add: loadUnitFromDB_def)
  show ?thesis
    using assms(4,5) ld
    by (simp add: closeThenCreate_def cl createObject_def dbOpen_def beginTxn_def Let_def
        split_beta)
qed

text \<open>
  C7. Closing the engine whose unit holds one unfiltered query and creating it again
  on the same file in the same hour: the record is in the store, the total is 1 again,
  but the counters by kind are twelve, the stored ones after six zeros.
\<close>

theorem closeThenCreate_shifts_nResult:
  "closeThenCreate hour100 [] oneQueryCtx 1 =
     Inr ([(100, Some (serialize oneQuery))],
          Some (oneQueryCtx\<lparr>unit :=
            Some (oneQuery\<lparr>nResult := [0, 0, 0, 0, 0, 0, 0, 1, 0, 0, 0, 0]\<rparr>)\<rparr>))"
  by code_simp

subsection \<open>The series by day\<close>

lemma byDays_no_boundary:
  assumes "\<forall>j<length units. sint (i + of_nat j) smod 24 \<noteq> 0"
  shows "byDays (\<lambda>u. Inr (NTotal u)) sm i units = Inr []"
  using assms
proof (induction units arbitrary: i sm)
  case Nil
  then show ?case by simp
next
  case (Cons u units)
  from Cons.prems have here: "sint i smod 24 \<noteq> 0"
    by (auto dest: spec [of _ 0])
  have "\<forall>j<length units. sint (i + 1 + of_nat j) smod 24 \<noteq> 0"
  proof (intro allI impI)
    fix j assume "j < length units"
    with Cons.prems have "sint (i + of_nat (Suc j)) smod 24 \<noteq> 0"
      by auto
    then show "sint (i + 1 + of_nat j) smod 24 \<noteq> 0"
      by (simp add: add.assoc)
  qed
  then have "byDays (\<lambda>u. Inr (NTotal u)) (sm + NTotal u) (i + 1) units = Inr []"
    by (rule Cons.IH)
  with here show ?case
    by (simp add: andThen_def Let_def)
qed

lemma byDays_first_boundary:
  assumes "k < length units" and "sint (i + of_nat k) smod 24 = 0"
    and "\<forall>j<k. sint (i + of_nat j) smod 24 \<noteq> 0"
  shows "byDays (\<lambda>u. Inr (NTotal u)) sm i units =
     andThen (byDays (\<lambda>u. Inr (NTotal u)) 0 (i + of_nat k + 1) (drop (Suc k) units))
       (\<lambda>a. Inr ((sm + sum_list (map NTotal (take (Suc k) units))) # a))"
  using assms
proof (induction k arbitrary: i sm units)
  case 0
  then obtain u us where "units = u # us"
    by (cases units) auto
  with 0 show ?case
    by (simp add: andThen_def Let_def)
next
  case (Suc k)
  then obtain u us where u: "units = u # us"
    by (cases units) auto
  from Suc.prems have here: "sint i smod 24 \<noteq> 0"
    by (auto dest: spec [of _ 0])
  have a: "k < length us"
    using Suc.prems u by simp
  have b: "sint (i + 1 + of_nat k) smod 24 = 0"
    using Suc.prems(2) by (simp add: add.assoc)
  have c: "\<forall>j<k. sint (i + 1 + of_nat j) smod 24 \<noteq> 0"
  proof (intro allI impI)
    fix j assume "j < k"
    with Suc.prems have "sint (i + of_nat (Suc j)) smod 24 \<noteq> 0"
      by auto
    then show "sint (i + 1 + of_nat j) smod 24 \<noteq> 0"
      by (simp add: add.assoc)
  qed
  have "i + 1 + of_nat k + 1 = i + of_nat (Suc k) + 1"
    by simp
  with Suc.IH [OF a b c, of "sm + NTotal u"] here u show ?case
    by (simp add: andThen_def Let_def add.assoc)
qed

lemma sum_list_ones:
  "\<forall>u\<in>set units. NTotal u = 1 \<Longrightarrow> sum_list (map NTotal units) = of_nat (length units)"
  by (induction units) simp_all

lemma unat_day_total:
  assumes "k < 24"
  shows "unat (of_nat (Suc k) :: go_uint) = Suc k"
proof -
  have "Suc k < 2 ^ 64"
    using assms by simp
  then have "Suc k mod 2 ^ LENGTH(64) = Suc k"
    by simp
  then show ?thesis
    by (simp only: unat_of_nat)
qed

text \<open>
  Over a window of 24 records with a total of 1 each, in which
  the record at position \<open>k\<close> (from 0) is the only one whose identifier is a multiple of
  24, the series by day has a single point, and its value is \<open>k + 1\<close>: the records up
  to and including that one. The records after it are added up and never emitted. The
  point is 24 when the last identifier of the window is the multiple of 24.
\<close>

lemma daily_point_counts_to_boundary:
  assumes "length units = 24" and "\<forall>u\<in>set units. NTotal u = 1" and "k < 24"
    and "\<forall>j\<in>{0..<24}. (sint (firstID + of_nat j) smod 24 = 0) = (j = k)"
  shows "\<exists>p. series Days (\<lambda>u. Inr (NTotal u)) firstID units = Inr [p] \<and> unat p = Suc k"
proof -
  have k: "k < length units"
    using assms(1,3) by simp
  have at_k: "sint (firstID + of_nat k) smod 24 = 0"
    using assms(3,4) by auto
  have before: "\<forall>j<k. sint (firstID + of_nat j) smod 24 \<noteq> 0"
    using assms(3,4) by auto
  have after: "\<forall>j<length (drop (Suc k) units).
      sint (firstID + of_nat k + 1 + of_nat j) smod 24 \<noteq> 0"
  proof (intro allI impI)
    fix j assume "j < length (drop (Suc k) units)"
    with assms(1) have "Suc k + j \<in> {0..<24}"
      by simp
    with assms(4) have "(sint (firstID + of_nat (Suc k + j)) smod 24 = 0) = (Suc k + j = k)"
      by (rule bspec)
    moreover have "firstID + of_nat k + 1 + of_nat j = firstID + of_nat (Suc k + j)"
      by simp
    ultimately show "sint (firstID + of_nat k + 1 + of_nat j) smod 24 \<noteq> 0"
      by (simp only:)
  qed
  have "set (take (Suc k) units) \<subseteq> set units"
    by (rule set_take_subset)
  with assms(2) have "\<forall>u\<in>set (take (Suc k) units). NTotal u = 1"
    by auto
  then have "sum_list (map NTotal (take (Suc k) units)) = of_nat (length (take (Suc k) units))"
    by (rule sum_list_ones)
  also have "length (take (Suc k) units) = Suc k"
    using k by simp
  finally have total: "sum_list (map NTotal (take (Suc k) units)) = of_nat (Suc k)" .
  have "series Days (\<lambda>u. Inr (NTotal u)) firstID units = Inr [of_nat (Suc k)]"
    unfolding series_def
    using byDays_first_boundary [OF k at_k before, of 0] byDays_no_boundary [OF after, of 0] total
    by (simp add: andThen_def)
  with unat_day_total [OF assms(3)] show ?thesis
    by blast
qed

lemma daily_point_counts_to_boundary_examples:
  "(\<exists>p. series Days (\<lambda>u. Inr (NTotal u)) 24 dayOfOnes = Inr [p] \<and> unat p = 1)
   \<and> (\<exists>p. series Days (\<lambda>u. Inr (NTotal u)) 1 dayOfOnes = Inr [p] \<and> unat p = 24)"
proof -
  have l: "length dayOfOnes = 24" and o: "\<forall>u\<in>set dayOfOnes. NTotal u = 1"
    by (simp_all add: dayOfOnes_def)
  have a: "\<forall>j\<in>{0..<24}. (sint ((24 :: go_int) + of_nat j) smod 24 = 0) = (j = 0)"
    by code_simp
  have b: "\<forall>j\<in>{0..<24}. (sint ((1 :: go_int) + of_nat j) smod 24 = 0) = (j = 23)"
    by code_simp
  from daily_point_counts_to_boundary [OF l o _ a] daily_point_counts_to_boundary [OF l o _ b]
  show ?thesis
    by simp
qed

text \<open>
  C8. At hour 47 with a limit of 24 the window is the hours 24 to 47, each with one
  query, and its first identifier is a multiple of 24. By hour the query returns 24
  points of 1. By day it returns the single point 1, not 24: the sum is emitted at
  hour 24, the 23 queries after it are added up and never emitted, while the total of
  the same answer is 24.
\<close>

theorem daily_series_drops_tail:
  "sint (now hour47 - limit ctx47 + 1) smod 24 = 0
   \<and> map_sum id (map_option (map NTotal)) (window hour47 storeDay ctx47)
       = Inr (Some (replicate 24 1))
   \<and> map_sum id (map_option dns_queries) (GetData hour47 storeDay ctx47 Hours)
       = Inr (Some (replicate 24 1))
   \<and> map_sum id (map_option dns_queries) (GetData hour47 storeDay ctx47 Days)
       = Inr (Some [1])
   \<and> map_sum id (map_option num_dns_queries) (GetData hour47 storeDay ctx47 Days)
       = Inr (Some 24)"
  by code_simp

subsection \<open>Totals and the average processing time\<close>

lemma at_known_kind:
  assumes "6 \<le> length a" and "k = RFiltered \<or> k = RSafeBrowsing \<or> k = RSafeSearch \<or> k = RParental"
  shows "at a k = Inr (a ! nat (sint k))"
  using assms by (auto simp: at_def RFiltered_def RSafeBrowsing_def RSafeSearch_def RParental_def)

lemma addKind_known_kind:
  assumes "6 \<le> length (NResult u)" and "6 \<le> length (NResult sm)"
    and "k = RFiltered \<or> k = RSafeBrowsing \<or> k = RSafeSearch \<or> k = RParental"
  shows "\<exists>r. addKind k u sm = Inr (sm\<lparr>NResult := r\<rparr>) \<and> length r = length (NResult sm)"
proof -
  let ?r = "(NResult sm)[nat (sint k) := NResult sm ! nat (sint k) + NResult u ! nat (sint k)]"
  from assms have "addKind k u sm = Inr (sm\<lparr>NResult := ?r\<rparr>)"
    by (simp add: addKind_def addAt_def andThen_def at_known_kind)
  moreover have "length ?r = length (NResult sm)"
    by simp
  ultimately show ?thesis
    by blast
qed

lemma totalStep_sums:
  assumes "6 \<le> length (NResult u)" and "6 \<le> length (NResult sm)"
  shows "\<exists>sm'. totalStep (sm, timeN) u = Inr (sm', if TimeAvg u \<noteq> 0 then timeN + 1 else timeN)
      \<and> NTotal sm' = NTotal sm + NTotal u
      \<and> TimeAvg sm' = TimeAvg sm + TimeAvg u
      \<and> length (NResult sm') = length (NResult sm)"
proof -
  let ?s0 = "sm\<lparr>NTotal := NTotal sm + NTotal u, TimeAvg := TimeAvg sm + TimeAvg u\<rparr>"
  from assms obtain r1 where 1: "addKind RFiltered u ?s0 = Inr (?s0\<lparr>NResult := r1\<rparr>)"
    and l1: "length r1 = length (NResult sm)"
    using addKind_known_kind [of u ?s0 RFiltered] by auto
  let ?s1 = "?s0\<lparr>NResult := r1\<rparr>"
  from assms l1 obtain r2 where 2: "addKind RSafeBrowsing u ?s1 = Inr (?s1\<lparr>NResult := r2\<rparr>)"
    and l2: "length r2 = length (NResult sm)"
    using addKind_known_kind [of u ?s1 RSafeBrowsing] by auto
  let ?s2 = "?s1\<lparr>NResult := r2\<rparr>"
  from assms l2 obtain r3 where 3: "addKind RSafeSearch u ?s2 = Inr (?s2\<lparr>NResult := r3\<rparr>)"
    and l3: "length r3 = length (NResult sm)"
    using addKind_known_kind [of u ?s2 RSafeSearch] by auto
  let ?s3 = "?s2\<lparr>NResult := r3\<rparr>"
  from assms l3 obtain r4 where 4: "addKind RParental u ?s3 = Inr (?s3\<lparr>NResult := r4\<rparr>)"
    and l4: "length r4 = length (NResult sm)"
    using addKind_known_kind [of u ?s3 RParental] by auto
  from 1 2 3 4 l4 show ?thesis
    by (simp add: totalStep_def andThen_def Let_def)
qed

lemma totals_sums:
  assumes "\<forall>u\<in>set units. 6 \<le> length (NResult u)" and "6 \<le> length (NResult sm)"
  shows "\<exists>sm'. totals (sm, timeN) units =
        Inr (sm', timeN + of_nat (length (filter (\<lambda>u. TimeAvg u \<noteq> 0) units)))
      \<and> NTotal sm' = NTotal sm + sum_list (map NTotal units)
      \<and> TimeAvg sm' = TimeAvg sm + sum_list (map TimeAvg units)
      \<and> length (NResult sm') = length (NResult sm)"
  using assms
proof (induction units arbitrary: sm timeN)
  case Nil
  then show ?case by simp
next
  case (Cons u units)
  from Cons.prems obtain s1 where
    step: "totalStep (sm, timeN) u = Inr (s1, if TimeAvg u \<noteq> 0 then timeN + 1 else timeN)"
    and s1: "NTotal s1 = NTotal sm + NTotal u" "TimeAvg s1 = TimeAvg sm + TimeAvg u"
      "length (NResult s1) = length (NResult sm)"
    using totalStep_sums [of u sm timeN] by auto
  from Cons.prems s1 have "\<forall>u\<in>set units. 6 \<le> length (NResult u)" "6 \<le> length (NResult s1)"
    by simp_all
  from Cons.IH [OF this, of "if TimeAvg u \<noteq> 0 then timeN + 1 else timeN"] step s1
  show ?case
    by (auto simp: andThen_def add.assoc)
qed

lemma byHours_returns:
  assumes "\<forall>u\<in>set units. \<exists>v. f u = Inr v"
  shows "\<exists>a. byHours f units = Inr a"
  using assms by (induction units) (auto simp: andThen_def)

lemma byDays_returns:
  assumes "\<forall>u\<in>set units. \<exists>v. f u = Inr v"
  shows "\<exists>a. byDays f sm i units = Inr a"
  using assms
proof (induction units arbitrary: sm i)
  case Nil
  then show ?case by simp
next
  case (Cons u units)
  then obtain v where v: "f u = Inr v"
    by auto
  from Cons have "\<exists>a. byDays f 0 (i + 1) units = Inr a" "\<exists>a. byDays f (sm + v) (i + 1) units = Inr a"
    by auto
  with v show ?case
    by (auto simp: andThen_def Let_def)
qed

lemma series_returns:
  assumes "\<forall>u\<in>set units. \<exists>v. f u = Inr v"
  shows "\<exists>a. series timeUnit f firstID units = Inr a"
  using byHours_returns [OF assms] byDays_returns [OF assms] by (simp add: series_def)

lemma window_length:
  assumes "window e disk s = Inr (Some units)"
  shows "int (length units) = sint (limit s)"
proof -
  from assms obtain tx where tx: "beginTxn e disk s = Some tx"
    by (cases "beginTxn e disk s") (auto simp: window_def)
  with assms obtain cur where cur: "unit s = Some cur"
    by (cases "unit s") (auto simp: window_def Let_def)
  have same: "unit_id cur = now e"
  proof (rule ccontr)
    assume "unit_id cur \<noteq> now e"
    from window_stale_unit [OF tx cur this] assms show False
      by (simp split: if_splits)
  qed
  with assms tx cur show ?thesis
    by (auto simp: window_def andThen_def Let_def split: if_splits)
qed

lemma aggregate_average:
  assumes "\<forall>u\<in>set units. 6 \<le> length (NResult u)"
    and "word_of_nat (length (filter (\<lambda>u. TimeAvg u \<noteq> 0) units)) \<noteq> (0 :: go_int)"
  shows "\<exists>d. aggregate timeUnit firstID units = Inr d
      \<and> avg_processing_time d =
          sum_list (map TimeAvg units) div of_nat (length (filter (\<lambda>u. TimeAvg u \<noteq> 0) units))
      \<and> num_dns_queries d = sum_list (map NTotal units)"
proof -
  obtain a1 where a1: "series timeUnit (\<lambda>u. Inr (NTotal u)) firstID units = Inr a1"
    using series_returns [of units "\<lambda>u. Inr (NTotal u)"] by auto
  have k: "\<forall>u\<in>set units. \<exists>v. at (NResult u) k = Inr v"
    if "k = RFiltered \<or> k = RSafeBrowsing \<or> k = RSafeSearch \<or> k = RParental" for k
    using assms(1) that by (simp add: at_known_kind)
  obtain a2 where a2: "series timeUnit (\<lambda>u. at (NResult u) RFiltered) firstID units = Inr a2"
    using series_returns [OF k, of RFiltered] by auto
  obtain a3 where a3: "series timeUnit (\<lambda>u. at (NResult u) RSafeBrowsing) firstID units = Inr a3"
    using series_returns [OF k, of RSafeBrowsing] by auto
  obtain a4 where a4: "series timeUnit (\<lambda>u. at (NResult u) RParental) firstID units = Inr a4"
    using series_returns [OF k, of RParental] by auto
  let ?z = "unitDB0\<lparr>NResult := replicate (nat (sint rLast)) 0\<rparr>"
  have z: "6 \<le> length (NResult ?z)" "NTotal ?z = 0" "TimeAvg ?z = 0"
    by (simp_all add: unitDB0_def rLast_def)
  from totals_sums [OF assms(1) z(1), of 0] z obtain sm where
    t: "totals (?z, 0) units = Inr (sm, of_nat (length (filter (\<lambda>u. TimeAvg u \<noteq> 0) units)))"
    and sm: "NTotal sm = sum_list (map NTotal units)" "TimeAvg sm = sum_list (map TimeAvg units)"
      "6 \<le> length (NResult sm)"
    by auto
  from a1 a2 a3 a4 t sm assms(2) show ?thesis
    by (simp add: aggregate_def andThen_def Let_def at_known_kind)
qed


text \<open>
  When no record of the window has an average, \<^verbatim>\<open>timeN\<close> is 0 and the division
  panics.
\<close>

lemma aggregate_no_average:
  assumes "\<forall>u\<in>set units. 6 \<le> length (NResult u)" and "\<forall>u\<in>set units. TimeAvg u = 0"
  shows "aggregate timeUnit firstID units = Inl DivideByZero"
proof -
  obtain a1 where a1: "series timeUnit (\<lambda>u. Inr (NTotal u)) firstID units = Inr a1"
    using series_returns [of units "\<lambda>u. Inr (NTotal u)"] by auto
  have k: "\<forall>u\<in>set units. \<exists>v. at (NResult u) k = Inr v"
    if "k = RFiltered \<or> k = RSafeBrowsing \<or> k = RSafeSearch \<or> k = RParental" for k
    using assms(1) that by (simp add: at_known_kind)
  obtain a2 where a2: "series timeUnit (\<lambda>u. at (NResult u) RFiltered) firstID units = Inr a2"
    using series_returns [OF k, of RFiltered] by auto
  obtain a3 where a3: "series timeUnit (\<lambda>u. at (NResult u) RSafeBrowsing) firstID units = Inr a3"
    using series_returns [OF k, of RSafeBrowsing] by auto
  obtain a4 where a4: "series timeUnit (\<lambda>u. at (NResult u) RParental) firstID units = Inr a4"
    using series_returns [OF k, of RParental] by auto
  let ?z = "unitDB0\<lparr>NResult := replicate (nat (sint rLast)) 0\<rparr>"
  have z: "6 \<le> length (NResult ?z)"
    by (simp add: unitDB0_def rLast_def)
  from assms(2) have "filter (\<lambda>u. TimeAvg u \<noteq> 0) units = []"
    by (simp add: filter_empty_conv)
  with totals_sums [OF assms(1) z, of 0] z obtain sm where
    t: "totals (?z, 0) units = Inr (sm, 0)" and sm: "6 \<le> length (NResult sm)"
    by auto
  from a1 a2 a3 a4 t sm show ?thesis
    by (simp add: aggregate_def andThen_def Let_def at_known_kind)
qed

text \<open>
  A query whose window has a record with an average returns, and the average it
  returns is the sum of the averages of the window divided by the number of records
  whose average is not zero (an unsigned integer division, in microseconds). The
  hypothesis on \<open>NResult\<close> keeps the reads of the counters by kind in range.
\<close>

lemma avg_processing_time_formula:
  assumes "window e disk s = Inr (Some units)"
    and "\<forall>u\<in>set units. 6 \<le> length (NResult u)"
    and "\<exists>u\<in>set units. TimeAvg u \<noteq> 0"
  shows "\<exists>d. GetData e disk s timeUnit = Inr (Some d)
      \<and> avg_processing_time d =
          sum_list (map TimeAvg units) div of_nat (length (filter (\<lambda>u. TimeAvg u \<noteq> 0) units))"
proof -
  let ?n = "length (filter (\<lambda>u. TimeAvg u \<noteq> 0) units)"
  from assms(3) have "filter (\<lambda>u. TimeAvg u \<noteq> 0) units \<noteq> []"
    by (simp add: filter_empty_conv)
  then have pos: "0 < ?n"
    by simp
  have "int ?n \<le> int (length units)"
    by simp
  also have "\<dots> = sint (limit s)"
    using assms(1) by (rule window_length)
  also have "\<dots> < 2 ^ 63"
    using sint_lt [of "limit s"] by simp
  finally have "?n < 2 ^ 64"
    by simp
  with pos have "word_of_nat ?n \<noteq> (0 :: go_int)"
    by (simp add: of_nat_neq_0)
  from aggregate_average [OF assms(2) this, of timeUnit "now e - limit s + 1"] assms(1)
  show ?thesis
    by (auto simp: GetData_def andThen_def)
qed

lemma avg_processing_time_formula_example:
  "\<exists>d. GetData hour100 storeHour99 oneQueryCtx Hours = Inr (Some d)
      \<and> avg_processing_time d = 28"
proof -
  let ?U = "replicate 22 (unitDB0\<lparr>NResult := replicate 6 0\<rparr>) @ [tenQueries, serialize oneQuery]"
  have w: "window hour100 storeHour99 oneQueryCtx = Inr (Some ?U)"
    by code_simp
  have l: "\<forall>u\<in>set ?U. 6 \<le> length (NResult u)"
    by code_simp
  have a: "\<exists>u\<in>set ?U. TimeAvg u \<noteq> 0"
    by code_simp
  have v: "sum_list (map TimeAvg ?U) div of_nat (length (filter (\<lambda>u. TimeAvg u \<noteq> 0) ?U)) = 28"
    by code_simp
  from avg_processing_time_formula [OF w l a, of Hours] show ?thesis
    unfolding v .
qed

text \<open>A query whose window has no record with an average panics.\<close>

lemma GetData_no_average:
  assumes "window e disk s = Inr (Some units)"
    and "\<forall>u\<in>set units. 6 \<le> length (NResult u)"
    and "\<forall>u\<in>set units. TimeAvg u = 0"
  shows "GetData e disk s timeUnit = Inl DivideByZero"
  using assms(1) aggregate_no_average [OF assms(2,3)]
  by (simp add: GetData_def andThen_def)

text \<open>
  C9. The first query of a fresh engine, by hour or by day, has a window without
  traffic: no record has an average, the number of records to divide by is 0, and the
  query panics in \<^verbatim>\<open>sum.TimeAvg/uint(timeN)\<close> instead of returning an average. The same
  happens when the window has a query whose time was 0.
\<close>

theorem GetData_without_average_panics:
  "GetData hour100 [] freshCtx Hours = Inl DivideByZero
   \<and> GetData hour100 [] freshCtx Days = Inl DivideByZero
   \<and> map_sum id (map_option (map NTotal)) (window hour100 [] instantQueryCtx)
       = Inr (Some (replicate 23 0 @ [1]))
   \<and> map_sum id (map_option (map TimeAvg)) (window hour100 [] instantQueryCtx)
       = Inr (Some (replicate 24 0))
   \<and> GetData hour100 [] instantQueryCtx Hours = Inl DivideByZero"
  by code_simp

end
